theory Spec2Isabelle
  imports Main
begin

section \<open>Python values and the shared state\<close>

text \<open>
  The workflow state is a Python \<^verbatim>\<open>dict\<close> keyed by field name. Its values are
  dynamically typed, so they are modelled by one datatype of Python values. Floats are
  left out: the schema of \<^verbatim>\<open>state.py\<close> gives the retry counter the type
  \<^verbatim>\<open>int | None\<close>.
\<close>

datatype pyval =
    PNone
  | PBool bool
  | PInt int
  | PStr string
  | PList "pyval list"
  | PDict "(string \<times> pyval) list"

text \<open>
  The faults a run can end with: the two Python exceptions the router can raise, a
  failing stage, and the configuration faults of the merge and of the graph walk.
\<close>

datatype error =
    AttributeError
  | TypeError
  | StageError string
  | UnknownKey string
  | UnknownOutcome string
  | NoSuccessor string

type_synonym state = "string \<rightharpoonup> pyval"

type_synonym update = "(string \<times> pyval) list"

text \<open>Python truthiness, as \<^verbatim>\<open>if x\<close> and \<^verbatim>\<open>x and y\<close> test it.\<close>

fun truthy :: "pyval \<Rightarrow> bool" where
  "truthy PNone = False"
| "truthy (PBool b) = b"
| "truthy (PInt n) = (n \<noteq> 0)"
| "truthy (PStr s) = (s \<noteq> [])"
| "truthy (PList xs) = (xs \<noteq> [])"
| "truthy (PDict d) = (d \<noteq> [])"

text \<open>\<^verbatim>\<open>state.get(key, default)\<close> on the state dict: the default only replaces a missing key.\<close>

definition state_get :: "state \<Rightarrow> string \<Rightarrow> pyval \<Rightarrow> pyval" where
  "state_get s k dflt = (case s k of None \<Rightarrow> dflt | Some v \<Rightarrow> v)"

text \<open>
  \<^verbatim>\<open>v.get(key, default)\<close> on an arbitrary value: only a dict has the method; on
  \<^verbatim>\<open>None\<close>, a number, a string or a list the attribute lookup raises AttributeError.
\<close>

fun py_get :: "pyval \<Rightarrow> string \<Rightarrow> pyval \<Rightarrow> error + pyval" where
  "py_get (PDict d) k dflt = Inr (case map_of d k of None \<Rightarrow> dflt | Some v \<Rightarrow> v)"
| "py_get v k dflt = Inl AttributeError"

text \<open>
  Comparison with an integer literal. \<^verbatim>\<open>bool\<close> is a subclass of \<^verbatim>\<open>int\<close>
  (\<^verbatim>\<open>True\<close> is 1); every other left operand raises TypeError.
\<close>

fun py_lt :: "pyval \<Rightarrow> int \<Rightarrow> error + bool" where
  "py_lt (PInt n) m = Inr (n < m)"
| "py_lt (PBool b) m = Inr ((if b then 1 else 0) < m)"
| "py_lt v m = Inl TypeError"

fun py_ge :: "pyval \<Rightarrow> int \<Rightarrow> error + bool" where
  "py_ge (PInt n) m = Inr (n \<ge> m)"
| "py_ge (PBool b) m = Inr ((if b then 1 else 0) \<ge> m)"
| "py_ge v m = Inl TypeError"

text \<open>
  \<^verbatim>\<open>a + b\<close>, which is also \<^verbatim>\<open>operator.add(a, b)\<close>: numbers add, strings and lists
  concatenate, anything else raises TypeError.
\<close>

fun py_add :: "pyval \<Rightarrow> pyval \<Rightarrow> error + pyval" where
  "py_add (PInt a) (PInt b) = Inr (PInt (a + b))"
| "py_add (PInt a) (PBool b) = Inr (PInt (a + (if b then 1 else 0)))"
| "py_add (PBool a) (PInt b) = Inr (PInt ((if a then 1 else 0) + b))"
| "py_add (PBool a) (PBool b) = Inr (PInt ((if a then 1 else 0) + (if b then 1 else 0)))"
| "py_add (PStr a) (PStr b) = Inr (PStr (a @ b))"
| "py_add (PList a) (PList b) = Inr (PList (a @ b))"
| "py_add a b = Inl TypeError"

section \<open>The router \<^verbatim>\<open>should_reanalyze\<close>\<close>

text \<open>
  \<^verbatim>\<open>
  def should_reanalyze(state: dict) -> Literal["reanalyze", "continue"]:
      quality_check = state.get("quality_check", {})
      needs_reanalysis = quality_check.get("needs_reanalysis", False)
      reanalysis_count = state.get("reanalysis_count", 0)
      if needs_reanalysis and reanalysis_count < 2:
          print(... f"(attempt {reanalysis_count + 1}/2)" ...)
          return "reanalyze"
      else:
          if needs_reanalysis and reanalysis_count >= 2:
              print(...)
          return "continue"
  \<close>
  \<^verbatim>\<open>and\<close> evaluates its right operand only when the left one is truthy, so the
  comparison (and its TypeError) happens only for a truthy flag. The text printed is not
  modelled, but the evaluation of \<^verbatim>\<open>reanalysis_count + 1\<close> inside it is. The
  function reads \<^verbatim>\<open>state\<close> through \<^verbatim>\<open>get\<close> only and returns the outcome label
  alone.
\<close>

definition py_and :: "pyval \<Rightarrow> (error + bool) \<Rightarrow> error + bool" where
  "py_and a b = (if truthy a then b else Inr False)"

definition should_reanalyze :: "state \<Rightarrow> error + string" where
  "should_reanalyze s =
     (let quality_check = state_get s ''quality_check'' (PDict []) in
      case py_get quality_check ''needs_reanalysis'' (PBool False) of
        Inl e \<Rightarrow> Inl e
      | Inr needs_reanalysis \<Rightarrow>
          (let reanalysis_count = state_get s ''reanalysis_count'' (PInt 0) in
           case py_and needs_reanalysis (py_lt reanalysis_count 2) of
             Inl e \<Rightarrow> Inl e
           | Inr True \<Rightarrow>
               (case py_add reanalysis_count (PInt 1) of
                  Inl e \<Rightarrow> Inl e
                | Inr attempt \<Rightarrow> Inr ''reanalyze'')
           | Inr False \<Rightarrow>
               (case py_and needs_reanalysis (py_ge reanalysis_count 2) of
                  Inl e \<Rightarrow> Inl e
                | Inr too_many \<Rightarrow> Inr ''continue'')))"

section \<open>The state schema \<^verbatim>\<open>AgentState\<close>\<close>

text \<open>
  \<^verbatim>\<open>state.py\<close> declares the fields of the state. A field annotated with
  \<^verbatim>\<open>Annotated[list[...], operator.add]\<close> carries a reducer and is an accumulator; every
  other field is overwritten by an update. The last component records whether the
  declared type admits \<^verbatim>\<open>None\<close>.
\<close>

datatype merge_class = Overwrite | Accumulator

definition AgentState :: "(string \<times> merge_class \<times> bool) list" where
  "AgentState =
    [(''job_description'', Overwrite, False),
     (''resumes'', Overwrite, False),
     (''resume_filenames'', Overwrite, True),
     (''job_requirements'', Overwrite, True),
     (''candidates'', Accumulator, False),
     (''skill_scores'', Overwrite, True),
     (''experience_scores'', Overwrite, True),
     (''education_scores'', Overwrite, True),
     (''candidate_scores'', Overwrite, True),
     (''ranked_candidates'', Overwrite, True),
     (''report'', Overwrite, True),
     (''interview_questions'', Overwrite, True),
     (''user_question'', Overwrite, True),
     (''agent_response'', Overwrite, True),
     (''conversation_history'', Accumulator, False),
     (''current_step'', Overwrite, True),
     (''errors'', Accumulator, False),
     (''tool_plan'', Overwrite, True),
     (''company_verifications'', Overwrite, True),
     (''github_analyses'', Overwrite, True),
     (''skill_taxonomy_data'', Overwrite, True),
     (''quality_check'', Overwrite, True),
     (''reanalysis_count'', Overwrite, True),
     (''bias_analysis'', Overwrite, True),
     (''salary_estimates'', Overwrite, True),
     (''ats_scores'', Overwrite, True)]"

definition merge_class_of :: "string \<Rightarrow> merge_class option" where
  "merge_class_of k = map_option fst (map_of AgentState k)"

definition admits_none :: "string \<Rightarrow> bool" where
  "admits_none k = (case map_of AgentState k of None \<Rightarrow> False | Some (c, nullable) \<Rightarrow> nullable)"

definition accumulator_fields :: "string list" where
  "accumulator_fields = map fst (filter (\<lambda>(k, c, nullable). c = Accumulator) AgentState)"

text \<open>
  Modelled from the spec: the merge of a stage's update into the state (section 4.1).
  The repository leaves the merge to the LangGraph library, whose code is not at hand; the
  merge class of each key is the one \<^verbatim>\<open>AgentState\<close> declares. An overwrite key takes
  the update's value; an accumulator key takes \<^verbatim>\<open>operator.add(current, update)\<close>, where
  a field not yet written counts as the empty list; an unknown key is a configuration
  fault. The entries of the update are merged in their order.
\<close>

fun merge :: "state \<Rightarrow> update \<Rightarrow> error + state" where
  "merge s [] = Inr s"
| "merge s ((k, v) # u) =
     (case merge_class_of k of
        None \<Rightarrow> Inl (UnknownKey k)
      | Some Overwrite \<Rightarrow> merge (s(k \<mapsto> v)) u
      | Some Accumulator \<Rightarrow>
          (case py_add (state_get s k (PList [])) v of
             Inl e \<Rightarrow> Inl e
           | Inr w \<Rightarrow> merge (s(k \<mapsto> w)) u))"

section \<open>The graph built by \<^verbatim>\<open>create_enhanced_screening_graph\<close>\<close>

text \<open>
  The builder object: the registered node names in registration order, the fixed edges,
  the conditional edges (source, router function, outcome-to-successor map) and the entry
  point. The node callables come from \<^verbatim>\<open>src.agents.nodes\<close>, whose code is not at hand; the
  engine below takes them as a parameter keyed by node name.
\<close>

record state_graph =
  nodes :: "string list"
  edges :: "(string \<times> string) list"
  branches :: "(string \<times> (state \<Rightarrow> error + string) \<times> (string \<times> string) list) list"
  entry_point :: "string option"

definition END :: string where
  "END = ''__end__''"

definition StateGraph :: state_graph where
  "StateGraph = \<lparr>nodes = [], edges = [], branches = [], entry_point = None\<rparr>"

definition add_node :: "string \<Rightarrow> state_graph \<Rightarrow> state_graph" where
  "add_node name g = g\<lparr>nodes := nodes g @ [name]\<rparr>"

definition add_edge :: "string \<Rightarrow> string \<Rightarrow> state_graph \<Rightarrow> state_graph" where
  "add_edge a b g = g\<lparr>edges := edges g @ [(a, b)]\<rparr>"

definition add_conditional_edges ::
  "string \<Rightarrow> (state \<Rightarrow> error + string) \<Rightarrow> (string \<times> string) list \<Rightarrow> state_graph \<Rightarrow> state_graph" where
  "add_conditional_edges a router path_map g = g\<lparr>branches := branches g @ [(a, router, path_map)]\<rparr>"

definition set_entry_point :: "string \<Rightarrow> state_graph \<Rightarrow> state_graph" where
  "set_entry_point name g = g\<lparr>entry_point := Some name\<rparr>"

text \<open>The builder calls of \<^verbatim>\<open>create_enhanced_screening_graph\<close>, in the order of the source.\<close>

definition create_enhanced_screening_graph :: state_graph where
  "create_enhanced_screening_graph =
     fold (\<lambda>call g. call g)
       [add_node ''job_analyzer'',
        add_node ''resume_parser'',
        add_node ''tool_coordinator'',
        add_node ''candidate_enricher'',
        add_node ''skill_matcher_enhanced'',
        add_node ''experience_analyzer_enhanced'',
        add_node ''education_verifier'',
        add_node ''scorer'',
        add_node ''quality_checker'',
        add_node ''bias_detector'',
        add_node ''salary_estimator'',
        add_node ''ats_scorer'',
        add_node ''report_generator'',
        add_node ''question_generator'',
        set_entry_point ''job_analyzer'',
        add_edge ''job_analyzer'' ''resume_parser'',
        add_edge ''resume_parser'' ''tool_coordinator'',
        add_edge ''tool_coordinator'' ''candidate_enricher'',
        add_edge ''candidate_enricher'' ''skill_matcher_enhanced'',
        add_edge ''skill_matcher_enhanced'' ''experience_analyzer_enhanced'',
        add_edge ''experience_analyzer_enhanced'' ''education_verifier'',
        add_edge ''education_verifier'' ''scorer'',
        add_edge ''scorer'' ''quality_checker'',
        add_conditional_edges ''quality_checker'' should_reanalyze
          [(''reanalyze'', ''experience_analyzer_enhanced''),
           (''continue'', ''bias_detector'')],
        add_edge ''bias_detector'' ''salary_estimator'',
        add_edge ''salary_estimator'' ''ats_scorer'',
        add_edge ''ats_scorer'' ''report_generator'',
        add_edge ''report_generator'' ''question_generator'',
        add_edge ''question_generator'' END]
       StateGraph"

text \<open>Every edge of a graph: the fixed ones and one per outcome of each conditional edge.\<close>

definition all_edges :: "state_graph \<Rightarrow> (string \<times> string) list" where
  "all_edges g =
     edges g @ concat (map (\<lambda>(a, router, path_map). map (\<lambda>(outcome, b). (a, b)) path_map) (branches g))"

text \<open>The successor an outcome selects at a decision stage.\<close>

definition outcome_target :: "state_graph \<Rightarrow> string \<Rightarrow> string \<Rightarrow> string option" where
  "outcome_target g a outcome =
     (case map_of (branches g) a of
        None \<Rightarrow> None
      | Some (router, path_map) \<Rightarrow> map_of path_map outcome)"

text \<open>
  The linear sequence of the pipeline: the walk from a stage along the fixed edges, taking
  the \<^verbatim>\<open>continue\<close> successor at a decision stage, until the terminal marker.
\<close>

definition forward_successor :: "state_graph \<Rightarrow> string \<Rightarrow> string option" where
  "forward_successor g a =
     (case map_of (edges g) a of
        Some b \<Rightarrow> Some b
      | None \<Rightarrow> outcome_target g a ''continue'')"

fun forward_walk :: "state_graph \<Rightarrow> nat \<Rightarrow> string \<Rightarrow> string list" where
  "forward_walk g 0 a = []"
| "forward_walk g (Suc k) a =
     (if a = END then []
      else a # (case forward_successor g a of None \<Rightarrow> [] | Some b \<Rightarrow> forward_walk g k b))"

definition linear_sequence :: "state_graph \<Rightarrow> string list" where
  "linear_sequence g =
     (case entry_point g of None \<Rightarrow> [] | Some a \<Rightarrow> forward_walk g (Suc (length (nodes g))) a)"

fun index_of :: "'a list \<Rightarrow> 'a \<Rightarrow> nat option" where
  "index_of [] a = None"
| "index_of (x # xs) a = (if x = a then Some 0 else map_option Suc (index_of xs a))"



text \<open>
  Modelled from the spec: the fields written by the stages of the retry-reachable span.
  The code of the stage functions is not at hand; the list is the one the specification gives for
  the stages from \<^verbatim>\<open>experience_analyzer_enhanced\<close> through \<^verbatim>\<open>quality_checker\<close>.
\<close>

definition span_written_fields :: "string list" where
  "span_written_fields =
     [''experience_scores'', ''education_scores'', ''candidate_scores'',
      ''ranked_candidates'', ''quality_check'']"

section \<open>The execution engine\<close>

text \<open>
  Modelled from the spec: the execution engine (section 4.4). The repository hands the
  compiled graph to the LangGraph library, whose code is not at hand, and the code of the
  stage functions is not at hand either, so the engine takes them as \<open>stage_fn\<close>. A stage
  maps the state to an update or fails; the engine merges the update, resolves the
  successor (through the router at a decision stage, through the fixed edge otherwise) and
  goes on until the successor is the terminal marker. A fault of a stage, of the merge or
  of the router aborts the run (the fail-fast policy; the graph of the source declares no
  other).

  \<open>router_update\<close> is the update that the decision logic contributes next to the outcome
  (section 4.3 of the spec). The router of the source returns the outcome alone, which is
  \<open>no_router_update\<close>; the increment the spec describes is \<open>count_retry\<close>.
\<close>

record engine =
  graph :: state_graph
  stage_fn :: "string \<Rightarrow> state \<Rightarrow> error + update"
  router_update :: "state \<Rightarrow> string \<Rightarrow> error + update"

record run_result =
  visited :: "string list"
  outcomes :: "string list"
  final :: state

definition no_router_update :: "state \<Rightarrow> string \<Rightarrow> error + update" where
  "no_router_update s outcome = Inr []"


definition exec_stage :: "engine \<Rightarrow> string \<Rightarrow> state \<Rightarrow> error + state" where
  "exec_stage E a s = (case stage_fn E a s of Inl e \<Rightarrow> Inl e | Inr u \<Rightarrow> merge s u)"

definition resolve :: "engine \<Rightarrow> string \<Rightarrow> state \<Rightarrow> error + (string \<times> string list \<times> state)" where
  "resolve E a s =
     (case map_of (branches (graph E)) a of
        Some (router, path_map) \<Rightarrow>
          (case router s of
             Inl e \<Rightarrow> Inl e
           | Inr outcome \<Rightarrow>
               (case router_update E s outcome of
                  Inl e \<Rightarrow> Inl e
                | Inr u \<Rightarrow>
                    (case merge s u of
                       Inl e \<Rightarrow> Inl e
                     | Inr s' \<Rightarrow>
                         (case map_of path_map outcome of
                            None \<Rightarrow> Inl (UnknownOutcome outcome)
                          | Some b \<Rightarrow> Inr (b, [outcome], s')))))
      | None \<Rightarrow>
          (case map_of (edges (graph E)) a of
             None \<Rightarrow> Inl (NoSuccessor a)
           | Some b \<Rightarrow> Inr (b, [], s)))"

definition step :: "engine \<Rightarrow> string \<Rightarrow> state \<Rightarrow> error + (string \<times> string list \<times> state)" where
  "step E a s = (case exec_stage E a s of Inl e \<Rightarrow> Inl e | Inr s' \<Rightarrow> resolve E a s')"

text \<open>
  The walk, with fuel: \<open>None\<close> is a run that has not reached the terminal marker within
  \<open>k\<close> stage visits; \<open>Some (Inl e)\<close> is an aborted run; \<open>Some (Inr r)\<close> is a run that
  reached the terminal marker, with the stages visited, the outcomes the router gave and
  the final state.
\<close>

fun run :: "engine \<Rightarrow> nat \<Rightarrow> string \<Rightarrow> state \<Rightarrow> string list \<Rightarrow> string list \<Rightarrow> (error + run_result) option" where
  "run E 0 a s vs os = None"
| "run E (Suc k) a s vs os =
     (if a = END then Some (Inr \<lparr>visited = vs, outcomes = os, final = s\<rparr>)
      else case step E a s of
             Inl e \<Rightarrow> Some (Inl e)
           | Inr (b, oc, s') \<Rightarrow> run E k b s' (vs @ [a]) (os @ oc))"

definition execute :: "engine \<Rightarrow> nat \<Rightarrow> state \<Rightarrow> (error + run_result) option" where
  "execute E k s =
     (case entry_point (graph E) of
        None \<Rightarrow> Some (Inl (NoSuccessor ''__start__''))
      | Some a \<Rightarrow> run E k a s [] [])"

section \<open>Vocabulary of the properties\<close>

text \<open>
  What the two fields read by the router hold. \<open>quality_check_readable\<close>: the field is
  missing or a dict. \<open>needs_reanalysis_flag\<close>: the quality check is a dict whose entry
  \<^verbatim>\<open>needs_reanalysis\<close> is truthy. \<open>stored_counter\<close>: the number the counter stands for
  (0 when the field is missing), or \<open>None\<close> when the field holds no number.
\<close>

definition quality_check_readable :: "state \<Rightarrow> bool" where
  "quality_check_readable s =
     (case s ''quality_check'' of None \<Rightarrow> True | Some (PDict d) \<Rightarrow> True | Some v \<Rightarrow> False)"

definition needs_reanalysis_flag :: "state \<Rightarrow> bool" where
  "needs_reanalysis_flag s =
     (case s ''quality_check'' of
        Some (PDict d) \<Rightarrow> (case map_of d ''needs_reanalysis'' of None \<Rightarrow> False | Some v \<Rightarrow> truthy v)
      | _ \<Rightarrow> False)"

definition stored_counter :: "state \<Rightarrow> int option" where
  "stored_counter s =
     (case s ''reanalysis_count'' of
        None \<Rightarrow> Some 0
      | Some (PInt n) \<Rightarrow> Some n
      | Some (PBool b) \<Rightarrow> Some (if b then 1 else 0)
      | Some v \<Rightarrow> None)"

definition counter_below_ceiling :: "state \<Rightarrow> bool" where
  "counter_below_ceiling s = (case stored_counter s of None \<Rightarrow> False | Some c \<Rightarrow> c < 2)"

text \<open>What an update appends to the accumulator field \<open>f\<close>: its list payloads for that key, in order.\<close>

definition appended :: "string \<Rightarrow> update \<Rightarrow> pyval list" where
  "appended f u =
     concat (map (\<lambda>(k, v). case v of PList ys \<Rightarrow> ys | _ \<Rightarrow> []) (filter (\<lambda>(k, v). k = f) u))"

text \<open>The position of a stage in the linear sequence of the built graph, the terminal marker last.\<close>

definition pos :: "string \<Rightarrow> nat" where
  "pos a =
     (case index_of (linear_sequence create_enhanced_screening_graph @ [END]) a of
        None \<Rightarrow> 0
      | Some i \<Rightarrow> i)"



text \<open>
  Stage functions for the concrete runs below: the quality checker reports
  \<^verbatim>\<open>needs_reanalysis\<close> at every visit, and no other stage writes anything.
\<close>

definition flagging_stages :: "string \<Rightarrow> state \<Rightarrow> error + update" where
  "flagging_stages a s =
     (if a = ''quality_checker''
      then Inr [(''quality_check'', PDict [(''needs_reanalysis'', PBool True)])]
      else Inr [])"

text \<open>The stages of the linear sequence up to the decision stage.\<close>

definition pre_decision_stages :: "string list" where
  "pre_decision_stages =
     [''job_analyzer'', ''resume_parser'', ''tool_coordinator'', ''candidate_enricher'',
      ''skill_matcher_enhanced'', ''experience_analyzer_enhanced'', ''education_verifier'',
      ''scorer'', ''quality_checker'']"

section \<open>The router\<close>

lemma should_reanalyze_cases:
  "should_reanalyze s =
     (if \<not> quality_check_readable s then Inl AttributeError
      else if \<not> needs_reanalysis_flag s then Inr ''continue''
      else case stored_counter s of
             None \<Rightarrow> Inl TypeError
           | Some c \<Rightarrow> Inr (if c < 2 then ''reanalyze'' else ''continue''))"
  by (auto simp: should_reanalyze_def quality_check_readable_def needs_reanalysis_flag_def
      stored_counter_def state_get_def py_and_def
      split: option.splits pyval.splits sum.splits bool.splits)

lemma flag_readable: "needs_reanalysis_flag s \<Longrightarrow> quality_check_readable s"
  by (auto simp: needs_reanalysis_flag_def quality_check_readable_def
      split: option.splits pyval.splits)

lemma should_reanalyze_flagged:
  "needs_reanalysis_flag s \<Longrightarrow> stored_counter s = Some c \<Longrightarrow>
   should_reanalyze s = Inr (if c < 2 then ''reanalyze'' else ''continue'')"
  by (simp add: should_reanalyze_cases flag_readable)

text \<open>
  The decision table of the router. Whatever it returns is one of the two outcomes; it
  returns \<^verbatim>\<open>reanalyze\<close> if and only if the quality check flags \<^verbatim>\<open>needs_reanalysis\<close>
  and the counter is below 2; and in every other case it returns \<^verbatim>\<open>continue\<close>, provided
  the quality check is missing or a dict and, when the flag is set, the counter is missing
  or a number.
\<close>

lemma should_reanalyze_decision:
  "(\<forall>r. should_reanalyze s = Inr r \<longrightarrow> r = ''reanalyze'' \<or> r = ''continue'') \<and>
   (should_reanalyze s = Inr ''reanalyze'' \<longleftrightarrow> needs_reanalysis_flag s \<and> counter_below_ceiling s) \<and>
   (quality_check_readable s \<and> (needs_reanalysis_flag s \<longrightarrow> stored_counter s \<noteq> None) \<longrightarrow>
      should_reanalyze s =
        Inr (if needs_reanalysis_flag s \<and> counter_below_ceiling s then ''reanalyze'' else ''continue''))"
  using flag_readable [of s]
  by (auto simp: should_reanalyze_cases counter_below_ceiling_def split: option.splits)

text \<open>
  Claim C1, at its failing input. The schema admits \<^verbatim>\<open>None\<close> for \<^verbatim>\<open>quality_check\<close>.
  On a state that holds it, \<^verbatim>\<open>state.get("quality_check", {})\<close> yields \<^verbatim>\<open>None\<close> (the
  default only replaces a missing key) and \<^verbatim>\<open>None.get\<close> raises AttributeError: the
  router gives neither of its two outcomes, where the claim has it return
  \<^verbatim>\<open>continue\<close>.
\<close>

theorem should_reanalyze_none_quality_check:
  "admits_none ''quality_check'' \<and>
   should_reanalyze [''quality_check'' \<mapsto> PNone] = Inl AttributeError \<and>
   should_reanalyze [''quality_check'' \<mapsto> PNone] \<noteq> Inr ''reanalyze'' \<and>
   should_reanalyze [''quality_check'' \<mapsto> PNone] \<noteq> Inr ''continue''"
  by (simp add: should_reanalyze_def state_get_def admits_none_def AgentState_def)

text \<open>
  Claim C4. In every state whose counter has reached the ceiling (an integer of at least
  2) while the quality check still flags \<^verbatim>\<open>needs_reanalysis\<close>, the router returns
  \<^verbatim>\<open>continue\<close>: it neither raises nor gives \<^verbatim>\<open>reanalyze\<close>.
\<close>

theorem ceiling_reached_continues:
  assumes "needs_reanalysis_flag s" and "s ''reanalysis_count'' = Some (PInt n)" and "2 \<le> n"
  shows "should_reanalyze s = Inr ''continue''"
proof -
  from assms(2) have "stored_counter s = Some n"
    by (simp add: stored_counter_def)
  from should_reanalyze_flagged [OF assms(1) this] assms(3) show ?thesis
    by simp
qed

theorem ceiling_reached_continues_witness:
  "needs_reanalysis_flag [''quality_check'' \<mapsto> PDict [(''needs_reanalysis'', PBool True)],
                         ''reanalysis_count'' \<mapsto> PInt 2] \<and>
   should_reanalyze [''quality_check'' \<mapsto> PDict [(''needs_reanalysis'', PBool True)],
                     ''reanalysis_count'' \<mapsto> PInt 2] = Inr ''continue''"
  using ceiling_reached_continues
    [of "[''quality_check'' \<mapsto> PDict [(''needs_reanalysis'', PBool True)],
          ''reanalysis_count'' \<mapsto> PInt 2]" 2]
  by (simp add: needs_reanalysis_flag_def)

text \<open>
  Claim C8, at its failing input. The schema admits \<^verbatim>\<open>None\<close> for
  \<^verbatim>\<open>reanalysis_count\<close>; with the flag set and the counter \<^verbatim>\<open>None\<close> the comparison
  \<^verbatim>\<open>None < 2\<close> raises TypeError, where the claim has the counter read as 0 and a result
  returned. A missing key, on the other hand, is read as the default.
\<close>

theorem should_reanalyze_none_counter:
  "admits_none ''reanalysis_count'' \<and>
   should_reanalyze [''quality_check'' \<mapsto> PDict [(''needs_reanalysis'', PBool True)],
                     ''reanalysis_count'' \<mapsto> PNone] = Inl TypeError \<and>
   should_reanalyze [''quality_check'' \<mapsto> PDict [(''needs_reanalysis'', PBool True)]]
     = Inr ''reanalyze'' \<and>
   should_reanalyze Map.empty = Inr ''continue''"
  by (simp add: should_reanalyze_def state_get_def py_and_def admits_none_def AgentState_def)

text \<open>
  Claim C10. The router is a function of the two fields \<^verbatim>\<open>quality_check\<close> and
  \<^verbatim>\<open>reanalysis_count\<close>: two states with the same counter, and with the same quality check
  or with two dicts that agree on the entry \<^verbatim>\<open>needs_reanalysis\<close>, get the same result
  (the same outcome, or the same exception), whatever their other fields hold.
\<close>

theorem should_reanalyze_two_fields:
  assumes "s ''reanalysis_count'' = t ''reanalysis_count''"
    and "s ''quality_check'' = t ''quality_check'' \<or>
         (\<exists>d e. s ''quality_check'' = Some (PDict d) \<and> t ''quality_check'' = Some (PDict e) \<and>
                 map_of d ''needs_reanalysis'' = map_of e ''needs_reanalysis'')"
  shows "should_reanalyze s = should_reanalyze t"
proof -
  have c: "state_get s ''reanalysis_count'' (PInt 0) = state_get t ''reanalysis_count'' (PInt 0)"
    using assms(1) by (simp add: state_get_def)
  have q: "py_get (state_get s ''quality_check'' (PDict [])) ''needs_reanalysis'' (PBool False)
         = py_get (state_get t ''quality_check'' (PDict [])) ''needs_reanalysis'' (PBool False)"
    using assms(2) by (auto simp: state_get_def)
  show ?thesis
    unfolding should_reanalyze_def Let_def c q by (rule refl)
qed

theorem should_reanalyze_two_fields_witness:
  "should_reanalyze [''quality_check'' \<mapsto> PDict [(''needs_reanalysis'', PBool True)],
                     ''job_description'' \<mapsto> PStr ''Senior Go engineer'',
                     ''report'' \<mapsto> PStr ''r'']
   = should_reanalyze [''quality_check'' \<mapsto> PDict [(''needs_reanalysis'', PBool True)],
                       ''candidates'' \<mapsto> PList [PDict []]]"
  using should_reanalyze_two_fields
    [of "[''quality_check'' \<mapsto> PDict [(''needs_reanalysis'', PBool True)],
          ''job_description'' \<mapsto> PStr ''Senior Go engineer'',
          ''report'' \<mapsto> PStr ''r'']"
        "[''quality_check'' \<mapsto> PDict [(''needs_reanalysis'', PBool True)],
          ''candidates'' \<mapsto> PList [PDict []]]"]
  by simp

section \<open>The built graph\<close>

lemmas builder_defs = create_enhanced_screening_graph_def StateGraph_def add_node_def add_edge_def
  add_conditional_edges_def set_entry_point_def

lemma graph_nodes:
  "nodes create_enhanced_screening_graph =
     [''job_analyzer'', ''resume_parser'', ''tool_coordinator'', ''candidate_enricher'',
      ''skill_matcher_enhanced'', ''experience_analyzer_enhanced'', ''education_verifier'',
      ''scorer'', ''quality_checker'', ''bias_detector'', ''salary_estimator'', ''ats_scorer'',
      ''report_generator'', ''question_generator'']"
  by (simp add: builder_defs)

lemma graph_edges:
  "edges create_enhanced_screening_graph =
     [(''job_analyzer'', ''resume_parser''),
      (''resume_parser'', ''tool_coordinator''),
      (''tool_coordinator'', ''candidate_enricher''),
      (''candidate_enricher'', ''skill_matcher_enhanced''),
      (''skill_matcher_enhanced'', ''experience_analyzer_enhanced''),
      (''experience_analyzer_enhanced'', ''education_verifier''),
      (''education_verifier'', ''scorer''),
      (''scorer'', ''quality_checker''),
      (''bias_detector'', ''salary_estimator''),
      (''salary_estimator'', ''ats_scorer''),
      (''ats_scorer'', ''report_generator''),
      (''report_generator'', ''question_generator''),
      (''question_generator'', END)]"
  by (simp add: builder_defs)

lemma graph_branches:
  "branches create_enhanced_screening_graph =
     [(''quality_checker'', should_reanalyze,
       [(''reanalyze'', ''experience_analyzer_enhanced''), (''continue'', ''bias_detector'')])]"
  by (simp add: builder_defs)

lemma graph_entry: "entry_point create_enhanced_screening_graph = Some ''job_analyzer''"
  by (simp add: builder_defs)

lemma graph_all_edges:
  "all_edges create_enhanced_screening_graph =
     [(''job_analyzer'', ''resume_parser''),
      (''resume_parser'', ''tool_coordinator''),
      (''tool_coordinator'', ''candidate_enricher''),
      (''candidate_enricher'', ''skill_matcher_enhanced''),
      (''skill_matcher_enhanced'', ''experience_analyzer_enhanced''),
      (''experience_analyzer_enhanced'', ''education_verifier''),
      (''education_verifier'', ''scorer''),
      (''scorer'', ''quality_checker''),
      (''bias_detector'', ''salary_estimator''),
      (''salary_estimator'', ''ats_scorer''),
      (''ats_scorer'', ''report_generator''),
      (''report_generator'', ''question_generator''),
      (''question_generator'', END),
      (''quality_checker'', ''experience_analyzer_enhanced''),
      (''quality_checker'', ''bias_detector'')]"
  by (simp add: all_edges_def graph_edges graph_branches)


lemma graph_linear_sequence:
  "linear_sequence create_enhanced_screening_graph =
     [''job_analyzer'', ''resume_parser'', ''tool_coordinator'', ''candidate_enricher'',
      ''skill_matcher_enhanced'', ''experience_analyzer_enhanced'', ''education_verifier'',
      ''scorer'', ''quality_checker'', ''bias_detector'', ''salary_estimator'', ''ats_scorer'',
      ''report_generator'', ''question_generator'']"
  by (simp add: linear_sequence_def graph_entry graph_nodes forward_successor_def outcome_target_def
      graph_edges graph_branches END_def)




lemma pos_values:
  "pos ''job_analyzer'' = 0" "pos ''resume_parser'' = 1" "pos ''tool_coordinator'' = 2"
  "pos ''candidate_enricher'' = 3" "pos ''skill_matcher_enhanced'' = 4"
  "pos ''experience_analyzer_enhanced'' = 5" "pos ''education_verifier'' = 6" "pos ''scorer'' = 7"
  "pos ''quality_checker'' = 8" "pos ''bias_detector'' = 9" "pos ''salary_estimator'' = 10"
  "pos ''ats_scorer'' = 11" "pos ''report_generator'' = 12" "pos ''question_generator'' = 13"
  "pos END = 14"
  by (simp_all add: pos_def graph_linear_sequence END_def)




lemma forward_edges:
  "set (all_edges create_enhanced_screening_graph) - {(''quality_checker'', ''experience_analyzer_enhanced'')}
   \<subseteq> {(a, b). pos a < pos b}"
  unfolding graph_all_edges by (simp add: Diff_subset_conv pos_values)





lemma forward_acyclic:
  "acyclic (set (all_edges create_enhanced_screening_graph) - {(''quality_checker'', ''experience_analyzer_enhanced'')})"
proof -
  have "acyclic (measure pos)"
    by (simp add: wf_acyclic)
  moreover have "{(a, b). pos a < pos b} \<subseteq> measure pos"
    by auto
  ultimately show ?thesis
    using forward_edges by (meson acyclic_subset subset_trans)
qed

lemma reach_all:
  "\<forall>a \<in> set (nodes create_enhanced_screening_graph).
     (''job_analyzer'', a) \<in> (set (all_edges create_enhanced_screening_graph))\<^sup>*"
proof -
  let ?R = "set (all_edges create_enhanced_screening_graph)"
  have step: "\<And>a b. (''job_analyzer'', a) \<in> ?R\<^sup>* \<Longrightarrow> (a, b) \<in> ?R \<Longrightarrow> (''job_analyzer'', b) \<in> ?R\<^sup>*"
    by (rule rtrancl_into_rtrancl)
  have r0: "(''job_analyzer'', ''job_analyzer'') \<in> ?R\<^sup>*" by simp
  have r1: "(''job_analyzer'', ''resume_parser'') \<in> ?R\<^sup>*"
    by (rule step [OF r0]) (simp add: graph_all_edges)
  have r2: "(''job_analyzer'', ''tool_coordinator'') \<in> ?R\<^sup>*"
    by (rule step [OF r1]) (simp add: graph_all_edges)
  have r3: "(''job_analyzer'', ''candidate_enricher'') \<in> ?R\<^sup>*"
    by (rule step [OF r2]) (simp add: graph_all_edges)
  have r4: "(''job_analyzer'', ''skill_matcher_enhanced'') \<in> ?R\<^sup>*"
    by (rule step [OF r3]) (simp add: graph_all_edges)
  have r5: "(''job_analyzer'', ''experience_analyzer_enhanced'') \<in> ?R\<^sup>*"
    by (rule step [OF r4]) (simp add: graph_all_edges)
  have r6: "(''job_analyzer'', ''education_verifier'') \<in> ?R\<^sup>*"
    by (rule step [OF r5]) (simp add: graph_all_edges)
  have r7: "(''job_analyzer'', ''scorer'') \<in> ?R\<^sup>*"
    by (rule step [OF r6]) (simp add: graph_all_edges)
  have r8: "(''job_analyzer'', ''quality_checker'') \<in> ?R\<^sup>*"
    by (rule step [OF r7]) (simp add: graph_all_edges)
  have r9: "(''job_analyzer'', ''bias_detector'') \<in> ?R\<^sup>*"
    by (rule step [OF r8]) (simp add: graph_all_edges)
  have r10: "(''job_analyzer'', ''salary_estimator'') \<in> ?R\<^sup>*"
    by (rule step [OF r9]) (simp add: graph_all_edges)
  have r11: "(''job_analyzer'', ''ats_scorer'') \<in> ?R\<^sup>*"
    by (rule step [OF r10]) (simp add: graph_all_edges)
  have r12: "(''job_analyzer'', ''report_generator'') \<in> ?R\<^sup>*"
    by (rule step [OF r11]) (simp add: graph_all_edges)
  have r13: "(''job_analyzer'', ''question_generator'') \<in> ?R\<^sup>*"
    by (rule step [OF r12]) (simp add: graph_all_edges)
  show ?thesis
    unfolding graph_nodes
    using r0 r1 r2 r3 r4 r5 r6 r7 r8 r9 r10 r11 r12 r13 by simp
qed

lemma cycle_exists:
  "(''experience_analyzer_enhanced'', ''experience_analyzer_enhanced'') \<in> (set (all_edges create_enhanced_screening_graph))\<^sup>+"
proof -
  let ?R = "set (all_edges create_enhanced_screening_graph)"
  have e1: "(''experience_analyzer_enhanced'', ''education_verifier'') \<in> ?R" by (simp add: graph_all_edges)
  have e2: "(''education_verifier'', ''scorer'') \<in> ?R" by (simp add: graph_all_edges)
  have e3: "(''scorer'', ''quality_checker'') \<in> ?R" by (simp add: graph_all_edges)
  have e4: "(''quality_checker'', ''experience_analyzer_enhanced'') \<in> ?R" by (simp add: graph_all_edges)
  from e1 e2 e3 e4 show ?thesis
    by (meson trancl.r_into_trancl trancl.trancl_into_trancl)
qed



lemma graph_retry_target:
  "outcome_target create_enhanced_screening_graph ''quality_checker'' ''reanalyze''
     = Some ''experience_analyzer_enhanced''"
  by (simp add: outcome_target_def graph_branches)

lemma graph_positions:
  "index_of (linear_sequence create_enhanced_screening_graph) ''experience_analyzer_enhanced'' = Some 5"
  "index_of (linear_sequence create_enhanced_screening_graph) ''quality_checker'' = Some 8"
  by (simp_all add: graph_linear_sequence)

text \<open>
  Claim C6. In the built graph the \<^verbatim>\<open>reanalyze\<close> outcome of the decision stage
  \<^verbatim>\<open>quality_checker\<close> leads to \<^verbatim>\<open>experience_analyzer_enhanced\<close>, which sits at
  position 5 of the linear sequence, before the decision stage at position 8, and is not
  the decision stage. That edge closes a cycle, and without it the graph has none. The
  entry stage is \<^verbatim>\<open>job_analyzer\<close>, and every registered stage is reachable from it.
\<close>

theorem retry_edge_only_cycle:
  "outcome_target create_enhanced_screening_graph ''quality_checker'' ''reanalyze''
     = Some ''experience_analyzer_enhanced'' \<and>
   index_of (linear_sequence create_enhanced_screening_graph) ''experience_analyzer_enhanced'' = Some 5 \<and>
   index_of (linear_sequence create_enhanced_screening_graph) ''quality_checker'' = Some 8 \<and>
   ''experience_analyzer_enhanced'' \<noteq> ''quality_checker'' \<and>
   (''experience_analyzer_enhanced'', ''experience_analyzer_enhanced'')
     \<in> (set (all_edges create_enhanced_screening_graph))\<^sup>+ \<and>
   acyclic (set (all_edges create_enhanced_screening_graph)
            - {(''quality_checker'', ''experience_analyzer_enhanced'')}) \<and>
   entry_point create_enhanced_screening_graph = Some ''job_analyzer'' \<and>
   (\<forall>a \<in> set (nodes create_enhanced_screening_graph).
      (''job_analyzer'', a) \<in> (set (all_edges create_enhanced_screening_graph))\<^sup>*)"
  using graph_retry_target graph_positions cycle_exists forward_acyclic graph_entry reach_all
  by simp

theorem retry_edge_only_cycle_witness:
  "''question_generator'' \<in> set (nodes create_enhanced_screening_graph) \<and>
   (''job_analyzer'', ''question_generator'') \<in> (set (all_edges create_enhanced_screening_graph))\<^sup>*"
proof -
  have "''question_generator'' \<in> set (nodes create_enhanced_screening_graph)"
    by (simp add: graph_nodes)
  with retry_edge_only_cycle show ?thesis by blast
qed

section \<open>The merge\<close>

lemma accumulator_fields_eq:
  "accumulator_fields = [''candidates'', ''conversation_history'', ''errors'']"
  by (simp add: accumulator_fields_def AgentState_def)

lemma merge_class_accumulators:
  "merge_class_of ''candidates'' = Some Accumulator"
  "merge_class_of ''conversation_history'' = Some Accumulator"
  "merge_class_of ''errors'' = Some Accumulator"
  by (simp_all add: merge_class_of_def AgentState_def)

lemma accumulator_class:
  assumes "f \<in> set accumulator_fields"
  shows "merge_class_of f = Some Accumulator"
proof -
  from assms have "f = ''candidates'' \<or> f = ''conversation_history'' \<or> f = ''errors''"
    by (simp add: accumulator_fields_eq)
  then show ?thesis
    using merge_class_accumulators by blast
qed

lemma py_add_list:
  "py_add (PList xs) v = Inr w \<Longrightarrow> \<exists>ys. v = PList ys \<and> w = PList (xs @ ys)"
  by (cases v) auto

lemma merge_untouched:
  "merge s u = Inr s' \<Longrightarrow> a \<notin> fst ` set u \<Longrightarrow> s' a = s a"
proof (induction u arbitrary: s)
  case Nil
  then show ?case by simp
next
  case (Cons p u)
  obtain k v where p: "p = (k, v)" by (cases p)
  from Cons.prems(2) p have ak: "a \<noteq> k" and au: "a \<notin> fst ` set u" by auto
  from Cons.prems(1) p obtain w where "merge (s(k \<mapsto> w)) u = Inr s'"
    by (auto split: option.splits merge_class.splits sum.splits)
  from Cons.IH [OF this au] ak show ?case by simp
qed

lemma merge_accumulates:
  "merge_class_of f = Some Accumulator \<Longrightarrow> merge s u = Inr s' \<Longrightarrow>
   state_get s f (PList []) = PList xs \<Longrightarrow>
   state_get s' f (PList []) = PList (xs @ appended f u)"
proof (induction u arbitrary: s xs)
  case Nil
  then show ?case by (simp add: appended_def)
next
  case (Cons p u)
  obtain k v where p: "p = (k, v)" by (cases p)
  show ?case
  proof (cases "k = f")
    case True
    from Cons.prems p True obtain w where w: "py_add (PList xs) v = Inr w"
      and m: "merge (s(f \<mapsto> w)) u = Inr s'"
      by (auto split: sum.splits)
    from py_add_list [OF w] obtain ys where ys: "v = PList ys" "w = PList (xs @ ys)" by blast
    have "state_get (s(f \<mapsto> w)) f (PList []) = PList (xs @ ys)"
      by (simp add: state_get_def ys)
    from Cons.IH [OF Cons.prems(1) m this] show ?thesis
      by (simp add: appended_def p True ys)
  next
    case False
    from Cons.prems(2) p obtain w where m: "merge (s(k \<mapsto> w)) u = Inr s'"
      by (auto split: option.splits merge_class.splits sum.splits)
    have "state_get (s(k \<mapsto> w)) f (PList []) = PList xs"
      using Cons.prems(3) False by (simp add: state_get_def)
    from Cons.IH [OF Cons.prems(1) m this] show ?thesis
      using False by (simp add: appended_def p)
  qed
qed

text \<open>
  Claim C7. The accumulator fields are \<^verbatim>\<open>candidates\<close>, \<^verbatim>\<open>conversation_history\<close> and
  \<^verbatim>\<open>errors\<close>. When an update is merged, such a field keeps its sequence and gets the
  update's entries appended behind it, in order and with duplicates; its length does not
  decrease. A second merge appends behind the first, so the entries stand in the order in
  which the updates were merged.
\<close>

theorem accumulator_concatenates:
  assumes "f \<in> set accumulator_fields" and "merge s u = Inr s'"
    and "state_get s f (PList []) = PList xs"
  shows "set accumulator_fields = {''candidates'', ''conversation_history'', ''errors''} \<and>
         (\<exists>ys. state_get s' f (PList []) = PList ys \<and> ys = xs @ appended f u \<and>
               length xs \<le> length ys) \<and>
         (\<forall>v s''. merge s' v = Inr s'' \<longrightarrow>
               state_get s'' f (PList []) = PList (xs @ appended f u @ appended f v))"
proof -
  note cls = accumulator_class [OF assms(1)]
  note first = merge_accumulates [OF cls assms(2) assms(3)]
  have "state_get s'' f (PList []) = PList (xs @ appended f u @ appended f v)"
    if "merge s' v = Inr s''" for v s''
    using merge_accumulates [OF cls that first] by simp
  with first show ?thesis
    by (simp add: accumulator_fields_eq)
qed

theorem accumulator_concatenates_witness:
  "''errors'' \<in> set accumulator_fields \<and>
   merge [''errors'' \<mapsto> PList [PStr ''a'']]
         [(''report'', PStr ''r''), (''errors'', PList [PStr ''a''])]
     = Inr [''errors'' \<mapsto> PList [PStr ''a'', PStr ''a''], ''report'' \<mapsto> PStr ''r''] \<and>
   state_get [''errors'' \<mapsto> PList [PStr ''a'', PStr ''a''], ''report'' \<mapsto> PStr ''r'']
     ''errors'' (PList []) = PList [PStr ''a'', PStr ''a''] \<and>
   merge [''errors'' \<mapsto> PList [PStr ''a'', PStr ''a''], ''report'' \<mapsto> PStr ''r'']
         [(''errors'', PList [PStr ''b''])]
     = Inr [''errors'' \<mapsto> PList [PStr ''a'', PStr ''a'', PStr ''b''], ''report'' \<mapsto> PStr ''r''] \<and>
   state_get [''errors'' \<mapsto> PList [PStr ''a'', PStr ''a'', PStr ''b''], ''report'' \<mapsto> PStr ''r'']
     ''errors'' (PList []) = PList [PStr ''a'', PStr ''a'', PStr ''b'']"
proof -
  have m: "merge [''errors'' \<mapsto> PList [PStr ''a'']]
                 [(''report'', PStr ''r''), (''errors'', PList [PStr ''a''])]
     = Inr [''errors'' \<mapsto> PList [PStr ''a'', PStr ''a''], ''report'' \<mapsto> PStr ''r'']"
    by (simp add: merge_class_of_def AgentState_def state_get_def fun_upd_twist)
  have n: "merge [''errors'' \<mapsto> PList [PStr ''a'', PStr ''a''], ''report'' \<mapsto> PStr ''r'']
                 [(''errors'', PList [PStr ''b''])]
     = Inr [''errors'' \<mapsto> PList [PStr ''a'', PStr ''a'', PStr ''b''], ''report'' \<mapsto> PStr ''r'']"
    by (simp add: merge_class_of_def AgentState_def state_get_def fun_upd_twist)
  have f: "''errors'' \<in> set accumulator_fields"
    by (simp add: accumulator_fields_eq)
  have g: "state_get [''errors'' \<mapsto> PList [PStr ''a'']] ''errors'' (PList []) = PList [PStr ''a'']"
    by (simp add: state_get_def)
  from accumulator_concatenates [OF f m g]
  have one: "state_get [''errors'' \<mapsto> PList [PStr ''a'', PStr ''a''], ''report'' \<mapsto> PStr ''r'']
               ''errors'' (PList [])
             = PList ([PStr ''a''] @ appended ''errors''
                        [(''report'', PStr ''r''), (''errors'', PList [PStr ''a''])])"
    and two: "\<forall>v s''. merge [''errors'' \<mapsto> PList [PStr ''a'', PStr ''a''], ''report'' \<mapsto> PStr ''r''] v
                 = Inr s'' \<longrightarrow>
               state_get s'' ''errors'' (PList [])
                 = PList ([PStr ''a''] @ appended ''errors''
                            [(''report'', PStr ''r''), (''errors'', PList [PStr ''a''])]
                          @ appended ''errors'' v)"
    by simp_all
  from two n
  have "state_get [''errors'' \<mapsto> PList [PStr ''a'', PStr ''a'', PStr ''b''], ''report'' \<mapsto> PStr ''r'']
          ''errors'' (PList [])
        = PList ([PStr ''a''] @ appended ''errors''
                    [(''report'', PStr ''r''), (''errors'', PList [PStr ''a''])]
                 @ appended ''errors'' [(''errors'', PList [PStr ''b''])])"
    by blast
  with one m n f show ?thesis
    by (simp add: appended_def)
qed

lemma span_overwrite: "\<forall>f \<in> set span_written_fields. merge_class_of f = Some Overwrite"
  by (auto simp: span_written_fields_def merge_class_of_def AgentState_def)

lemma span_disjoint: "set span_written_fields \<inter> set accumulator_fields = {}"
  by (simp add: span_written_fields_def accumulator_fields_eq)

text \<open>
  Claim C9. Each of the fields written inside the retry-reachable span
  (\<^verbatim>\<open>experience_scores\<close>, \<^verbatim>\<open>education_scores\<close>, \<^verbatim>\<open>candidate_scores\<close>,
  \<^verbatim>\<open>ranked_candidates\<close>, \<^verbatim>\<open>quality_check\<close>) is declared with the overwrite class, so
  merging an update that writes only such fields leaves every accumulator field as it was.
\<close>

theorem span_fields_overwrite:
  "(\<forall>f \<in> set span_written_fields. merge_class_of f = Some Overwrite) \<and>
   (\<forall>s u s' a. fst ` set u \<subseteq> set span_written_fields \<and> merge s u = Inr s' \<and>
       a \<in> set accumulator_fields \<longrightarrow> s' a = s a)"
proof (intro conjI allI impI)
  show "\<forall>f \<in> set span_written_fields. merge_class_of f = Some Overwrite"
    by (rule span_overwrite)
next
  fix s u s' a
  assume h: "fst ` set u \<subseteq> set span_written_fields \<and> merge s u = Inr s' \<and>
             a \<in> set accumulator_fields"
  then have "a \<notin> fst ` set u"
    using span_disjoint by blast
  with h show "s' a = s a"
    using merge_untouched by blast
qed

theorem span_fields_overwrite_witness:
  "''quality_check'' \<in> set span_written_fields \<and>
   merge_class_of ''quality_check'' = Some Overwrite \<and>
   merge [''errors'' \<mapsto> PList [PStr ''e'']] [(''quality_check'', PDict []), (''quality_check'', PDict [])]
     = Inr [''errors'' \<mapsto> PList [PStr ''e''], ''quality_check'' \<mapsto> PDict []] \<and>
   [''errors'' \<mapsto> PList [PStr ''e''], ''quality_check'' \<mapsto> PDict []] ''errors''
     = [''errors'' \<mapsto> PList [PStr ''e'']] ''errors''"
proof -
  have q: "''quality_check'' \<in> set span_written_fields"
    by (simp add: span_written_fields_def)
  have m: "merge [''errors'' \<mapsto> PList [PStr ''e'']]
                 [(''quality_check'', PDict []), (''quality_check'', PDict [])]
     = Inr [''errors'' \<mapsto> PList [PStr ''e''], ''quality_check'' \<mapsto> PDict []]"
    by (simp add: merge_class_of_def AgentState_def)
  have k: "fst ` set [(''quality_check'', PDict []), (''quality_check'', PDict [])]
             \<subseteq> set span_written_fields"
    by (simp add: span_written_fields_def)
  have e: "''errors'' \<in> set accumulator_fields"
    by (simp add: accumulator_fields_eq)
  from span_fields_overwrite q have "merge_class_of ''quality_check'' = Some Overwrite"
    by blast
  moreover from span_fields_overwrite k m e
  have "[''errors'' \<mapsto> PList [PStr ''e''], ''quality_check'' \<mapsto> PDict []] ''errors''
     = [''errors'' \<mapsto> PList [PStr ''e'']] ''errors''"
    by blast
  ultimately show ?thesis using q m by simp
qed

section \<open>The execution engine on the built graph\<close>

lemma branch_lookup:
  "map_of (branches create_enhanced_screening_graph) a =
     (if a = ''quality_checker''
      then Some (should_reanalyze,
                 [(''reanalyze'', ''experience_analyzer_enhanced''), (''continue'', ''bias_detector'')])
      else None)"
  by (simp add: graph_branches)





lemma resolve_fixed:
  assumes "graph E = create_enhanced_screening_graph" and "a \<noteq> ''quality_checker''"
  shows "resolve E a s =
     (case map_of (edges create_enhanced_screening_graph) a of
        None \<Rightarrow> Inl (NoSuccessor a)
      | Some b \<Rightarrow> Inr (b, [], s))"
  using assms by (simp add: resolve_def branch_lookup)


lemma stored_counter_cong:
  "s' ''reanalysis_count'' = s ''reanalysis_count'' \<Longrightarrow> stored_counter s' = stored_counter s"
  by (simp add: stored_counter_def)



lemma run_step:
  "a \<noteq> END \<Longrightarrow> step E a s = Inr (b, oc, s') \<Longrightarrow>
   run E (Suc k) a s vs os = run E k b s' (vs @ [a]) (os @ oc)"
  by simp


lemma step_after_stage:
  "exec_stage E a s = Inr s1 \<Longrightarrow> step E a s = resolve E a s1"
  by (simp add: step_def)















lemma quality_check_class: "merge_class_of ''quality_check'' = Some Overwrite"
  by (simp add: merge_class_of_def AgentState_def)

lemma flagging_total:
  "graph E = create_enhanced_screening_graph \<Longrightarrow> stage_fn E = flagging_stages \<Longrightarrow>
   \<forall>a s. \<exists>s'. exec_stage E a s = Inr s'"
  by (simp add: exec_stage_def flagging_stages_def quality_check_class)

lemma flagging_keep:
  "stage_fn E = flagging_stages \<Longrightarrow>
   \<forall>a s s'. exec_stage E a s = Inr s' \<longrightarrow> s' ''reanalysis_count'' = s ''reanalysis_count''"
  by (auto simp: exec_stage_def flagging_stages_def quality_check_class split: if_splits)

lemma flagging_flags:
  "stage_fn E = flagging_stages \<Longrightarrow>
   \<forall>s s'. exec_stage E ''quality_checker'' s = Inr s' \<longrightarrow> needs_reanalysis_flag s'"
  by (auto simp: exec_stage_def flagging_stages_def quality_check_class needs_reanalysis_flag_def)


lemma resolve_decision_plain:
  assumes "graph E = create_enhanced_screening_graph" and "router_update E = no_router_update"
    and "needs_reanalysis_flag s" and "stored_counter s = Some c"
  shows "resolve E ''quality_checker'' s =
     (if c < 2 then Inr (''experience_analyzer_enhanced'', [''reanalyze''], s)
      else Inr (''bias_detector'', [''continue''], s))"
  using assms
  by (simp add: resolve_def branch_lookup should_reanalyze_flagged no_router_update_def)

lemma pre_decision_successor:
  assumes "a \<in> set pre_decision_stages" and "a \<noteq> ''quality_checker''"
  shows "\<exists>b. map_of (edges create_enhanced_screening_graph) a = Some b \<and> b \<in> set pre_decision_stages"
proof -
  from assms have "a = ''job_analyzer'' \<or> a = ''resume_parser'' \<or> a = ''tool_coordinator'' \<or>
      a = ''candidate_enricher'' \<or> a = ''skill_matcher_enhanced'' \<or>
      a = ''experience_analyzer_enhanced'' \<or> a = ''education_verifier'' \<or> a = ''scorer''"
    by (simp add: pre_decision_stages_def)
  then show ?thesis
    by (elim disjE) (simp_all add: graph_edges pre_decision_stages_def)
qed

lemma pre_decision_not_end: "a \<in> set pre_decision_stages \<Longrightarrow> a \<noteq> END"
  by (auto simp: pre_decision_stages_def END_def)

lemma no_progress:
  assumes g: "graph E = create_enhanced_screening_graph" and u: "router_update E = no_router_update"
    and total: "\<forall>a s. \<exists>s'. exec_stage E a s = Inr s'"
    and keep: "\<forall>a s s'. exec_stage E a s = Inr s' \<longrightarrow> s' ''reanalysis_count'' = s ''reanalysis_count''"
    and flags: "\<forall>s s'. exec_stage E ''quality_checker'' s = Inr s' \<longrightarrow> needs_reanalysis_flag s'"
  shows "counter_below_ceiling s \<Longrightarrow> a \<in> set pre_decision_stages \<Longrightarrow> run E k a s vs os = None"
proof (induction k arbitrary: a s vs os)
  case 0
  show ?case by simp
next
  case (Suc k)
  from Suc.prems(2) have notend: "a \<noteq> END" by (rule pre_decision_not_end)
  from total obtain s1 where s1: "exec_stage E a s = Inr s1" by blast
  with keep have "s1 ''reanalysis_count'' = s ''reanalysis_count''" by blast
  with stored_counter_cong [of s1 s] Suc.prems(1) have b1: "counter_below_ceiling s1"
    by (simp add: counter_below_ceiling_def)
  note st = step_after_stage [OF s1]
  show ?case
  proof (cases "a = ''quality_checker''")
    case qc: True
    from s1 flags qc have fl: "needs_reanalysis_flag s1" by blast
    from b1 obtain c where c: "stored_counter s1 = Some c" "c < 2"
      by (auto simp: counter_below_ceiling_def split: option.splits)
    have stp: "step E a s = Inr (''experience_analyzer_enhanced'', [''reanalyze''], s1)"
      using st resolve_decision_plain [OF g u fl c(1)] c(2) qc by simp
    have "''experience_analyzer_enhanced'' \<in> set pre_decision_stages"
      by (simp add: pre_decision_stages_def)
    from Suc.IH [OF b1 this] show ?thesis
      unfolding run_step [OF notend stp] .
  next
    case nqc: False
    from pre_decision_successor [OF Suc.prems(2) nqc] obtain b
      where b: "map_of (edges create_enhanced_screening_graph) a = Some b"
        and bm: "b \<in> set pre_decision_stages" by blast
    have stp: "step E a s = Inr (b, [], s1)"
      using st resolve_fixed [OF g nqc, of s1] b by simp
    from Suc.IH [OF b1 bm] show ?thesis
      unfolding run_step [OF notend stp] .
  qed
qed

text \<open>
  Claim C5, as stated, fails. With the router of the source and no increment of the
  counter, a quality checker that reports \<^verbatim>\<open>needs_reanalysis\<close> at every visit keeps the
  run in the retry cycle: no amount of fuel brings it to the terminal marker.
\<close>

theorem unbounded_without_increment:
  "\<not> (\<exists>k r. execute \<lparr>graph = create_enhanced_screening_graph, stage_fn = flagging_stages,
                      router_update = no_router_update\<rparr> k Map.empty = Some (Inr r))"
proof -
  let ?E = "\<lparr>graph = create_enhanced_screening_graph, stage_fn = flagging_stages,
             router_update = no_router_update\<rparr>"
  have g: "graph ?E = create_enhanced_screening_graph" and u: "router_update ?E = no_router_update"
    and f: "stage_fn ?E = flagging_stages"
    by simp_all
  have b: "counter_below_ceiling Map.empty"
    by (simp add: counter_below_ceiling_def stored_counter_def)
  have m: "''job_analyzer'' \<in> set pre_decision_stages"
    by (simp add: pre_decision_stages_def)
  have "execute ?E k Map.empty = None" for k
    using no_progress [OF g u flagging_total [OF g f] flagging_keep [OF f] flagging_flags [OF f] b m]
    by (simp add: execute_def graph_entry)
  then show ?thesis by simp
qed

text \<open>
  Claim C5, amended. The router bounds the retries through the stored counter only. If
  the counter is below 2 and is never incremented, no stage fails, and the quality checker
  reports \<^verbatim>\<open>needs_reanalysis\<close> at every visit, then the router answers
  \<^verbatim>\<open>reanalyze\<close> at every decision and the run never reaches the terminal marker.
\<close>

theorem retry_bound_rests_on_counter:
  assumes g: "graph E = create_enhanced_screening_graph" and u: "router_update E = no_router_update"
    and total: "\<forall>a s. \<exists>s'. exec_stage E a s = Inr s'"
    and keep: "\<forall>a s s'. exec_stage E a s = Inr s' \<longrightarrow> s' ''reanalysis_count'' = s ''reanalysis_count''"
    and flags: "\<forall>s s'. exec_stage E ''quality_checker'' s = Inr s' \<longrightarrow> needs_reanalysis_flag s'"
    and start: "counter_below_ceiling s0"
  shows "\<forall>k. execute E k s0 = None"
proof -
  have "''job_analyzer'' \<in> set pre_decision_stages"
    by (simp add: pre_decision_stages_def)
  from no_progress [OF g u total keep flags start this] show ?thesis
    by (simp add: execute_def g graph_entry)
qed

theorem retry_bound_rests_on_counter_witness:
  "counter_below_ceiling [''reanalysis_count'' \<mapsto> PInt 1] \<and>
   execute \<lparr>graph = create_enhanced_screening_graph, stage_fn = flagging_stages,
            router_update = no_router_update\<rparr> 1000 [''reanalysis_count'' \<mapsto> PInt 1] = None"
proof -
  let ?E = "\<lparr>graph = create_enhanced_screening_graph, stage_fn = flagging_stages,
             router_update = no_router_update\<rparr>"
  have g: "graph ?E = create_enhanced_screening_graph" and u: "router_update ?E = no_router_update"
    and f: "stage_fn ?E = flagging_stages"
    by simp_all
  have b: "counter_below_ceiling [''reanalysis_count'' \<mapsto> PInt 1]"
    by (simp add: counter_below_ceiling_def stored_counter_def)
  from retry_bound_rests_on_counter
    [OF g u flagging_total [OF g f] flagging_keep [OF f] flagging_flags [OF f] b] b
  show ?thesis by simp
qed





end
